theory Spec2Isabelle
  imports Complex_Main
begin

section \<open>Python values used by build\_pretraining\_dataset.py\<close>

text \<open>
  A Python \<open>str\<close> is a sequence of Unicode code points; \<open>len\<close>, \<open>strip\<close> and \<open>split\<close>
  work on code points, so a string is modelled as a list of code points. Literals are
  written through \<open>str\<close>, which reads an ASCII literal as its code points.
\<close>

type_synonym codepoint = nat
type_synonym pystr = "codepoint list"

definition str :: "string \<Rightarrow> pystr" where
  "str s = map of_char s"

text \<open>Python's \<open>len\<close>, an \<open>int\<close>.\<close>

definition len :: "'a list \<Rightarrow> int" where
  "len xs = int (length xs)"

text \<open>
  The code points that \<open>str.strip()\<close> and \<open>str.split()\<close> (both without argument) treat as
  whitespace: tab to carriage return, the four separators U+001C to U+001F, the space,
  and the Unicode white space beyond ASCII.
\<close>

definition isspace :: "codepoint \<Rightarrow> bool" where
  "isspace c \<longleftrightarrow>
     (9 \<le> c \<and> c \<le> 13) \<or> (28 \<le> c \<and> c \<le> 32) \<or> c = 133 \<or> c = 160 \<or> c = 5760 \<or>
     (8192 \<le> c \<and> c \<le> 8202) \<or> c = 8232 \<or> c = 8233 \<or> c = 8239 \<or> c = 8287 \<or> c = 12288"

text \<open>\<open>s.strip()\<close>: leading and trailing whitespace removed.\<close>

definition py_strip :: "pystr \<Rightarrow> pystr" where
  "py_strip s = rev (dropWhile isspace (rev (dropWhile isspace s)))"

text \<open>\<open>s.replace("\n", " ")\<close>: every line feed (10) becomes a space (32).\<close>

definition replace_newline :: "pystr \<Rightarrow> pystr" where
  "replace_newline s = map (\<lambda>c. if c = 10 then 32 else c) s"

text \<open>
  \<open>s.split()\<close>: the maximal runs of non-whitespace, in order; no empty field is
  produced. \<open>cur\<close> is the field being read.
\<close>

fun split_from :: "pystr \<Rightarrow> pystr \<Rightarrow> pystr list" where
  "split_from cur [] = (if cur = [] then [] else [cur])"
| "split_from cur (c # cs) =
     (if isspace c then (if cur = [] then split_from [] cs else cur # split_from [] cs)
      else split_from (cur @ [c]) cs)"

definition py_split :: "pystr \<Rightarrow> pystr list" where
  "py_split s = split_from [] s"

text \<open>\<open>xs[:k]\<close>: a negative bound counts from the end of the list.\<close>

definition slice_to :: "'a list \<Rightarrow> int \<Rightarrow> 'a list" where
  "slice_to xs k = (if 0 \<le> k then take (nat k) xs else take (nat (len xs + k)) xs)"

text \<open>\<open>[x] * n\<close>: empty when \<open>n\<close> is not positive.\<close>

definition repeated :: "'a \<Rightarrow> int \<Rightarrow> 'a list" where
  "repeated x n = replicate (nat n) x"

text \<open>
  Exceptions are values. Every operation that mutates an object returns its outcome
  together with the state it leaves behind, also when it raises.
\<close>

datatype error = ValueError | AssertionError | KeyError | ZeroDivisionError | IOError

datatype 'a outcome = Raised error | Returned 'a

section \<open>The random module\<close>

text \<open>
  The process-wide random source is an infinite sequence of raw draws, consumed from the
  front. \<open>random.random()\<close> yields a multiple of \<open>2\<^sup>-\<^sup>5\<^sup>3\<close> in \<open>[0, 1)\<close>, as the Mersenne
  Twister does; on such values the comparisons of the program against the floating point
  constants 0.1, 0.05 and 0.5 agree with the comparisons against 1/10, 1/20 and 1/2.
  \<open>random.randint(a, b)\<close> raises \<open>ValueError\<close> on an empty range, before any draw, and
  otherwise yields \<open>a\<close> plus the draw reduced into the width of the range, so that every
  integer of \<open>[a, b]\<close> is the result for some draw and no other integer is.
\<close>

type_synonym rng = "nat \<Rightarrow> nat"

definition advance :: "rng \<Rightarrow> rng" where
  "advance g = (\<lambda>n. g (Suc n))"

definition random_random :: "rng \<Rightarrow> real \<times> rng" where
  "random_random g = (real (g 0 mod 2 ^ 53) / 2 ^ 53, advance g)"

definition random_randint :: "int \<Rightarrow> int \<Rightarrow> rng \<Rightarrow> int outcome \<times> rng" where
  "random_randint a b g =
     (if b < a then (Raised ValueError, g)
      else (Returned (a + int (g 0) mod (b - a + 1)), advance g))"

section \<open>Tokenizer\<close>

record Tokenizer =
  vocab :: "pystr \<rightharpoonup> int"
  unk_id :: int

text \<open>\<open>Tokenizer.tokenize\<close>: \<open>line.strip().split()\<close>.\<close>

definition tokenize :: "pystr \<Rightarrow> pystr list" where
  "tokenize line = py_split (py_strip line)"

text \<open>\<open>Tokenizer.convert_tokens_to_ids\<close>: \<open>vocab.get(tok, unk_id)\<close> for each token.\<close>

definition convert_tokens_to_ids :: "Tokenizer \<Rightarrow> pystr list \<Rightarrow> int list" where
  "convert_tokens_to_ids t tokens =
     map (\<lambda>tok. case vocab t tok of Some i \<Rightarrow> i | None \<Rightarrow> unk_id t) tokens"

text \<open>
  \<open>Tokenizer.__init__\<close> (lines 28 to 48). The vocabulary file is the list of its lines
  as the iteration over the file yields them. The five markers are entered first; then
  every line is stripped (twice, as the source does), split, and unpacked into exactly
  two names, which raises \<open>ValueError\<close> for any other number of fields; the assertion
  raises \<open>AssertionError\<close> for a piece that is already a key.
\<close>

definition reserved_vocab :: "pystr \<rightharpoonup> int" where
  "reserved_vocab =
     [str ''[PAD]'' \<mapsto> 0, str ''[UNK]'' \<mapsto> 1, str ''[CLS]'' \<mapsto> 2,
      str ''[SEP]'' \<mapsto> 3, str ''[MASK]'' \<mapsto> 4]"

fun load_vocab :: "(pystr \<rightharpoonup> int) \<Rightarrow> int \<Rightarrow> pystr list \<Rightarrow> (pystr \<rightharpoonup> int) outcome" where
  "load_vocab v i [] = Returned v"
| "load_vocab v i (line # rest) =
     (case py_split (py_strip (py_strip line)) of
        [piece, freq] \<Rightarrow>
          if v piece \<noteq> None then Raised AssertionError
          else load_vocab (v(piece \<mapsto> i)) (i + 1) rest
      | _ \<Rightarrow> Raised ValueError)"

definition Tokenizer_init :: "pystr list \<Rightarrow> Tokenizer outcome" where
  "Tokenizer_init vocab_file =
     (case load_vocab reserved_vocab 5 vocab_file of
        Raised e \<Rightarrow> Raised e
      | Returned v \<Rightarrow> Returned \<lparr>vocab = v, unk_id = 1\<rparr>)"

section \<open>ExampleBuilder\<close>

text \<open>
  The fields of the class \<open>ExampleBuilder\<close>, without their leading underscore. The
  emitted \<open>tf.train.Example\<close> is the record of its three integer features.
\<close>

record ExampleBuilder =
  tokenizer :: Tokenizer
  current_sentences :: "int list list"
  current_length :: int
  max_length :: int
  target_length :: int

record Example =
  input_ids :: "int list"
  input_mask :: "int list"
  segment_ids :: "int list"

text \<open>\<open>ExampleBuilder.__init__\<close>.\<close>

definition ExampleBuilder_init :: "Tokenizer \<Rightarrow> int \<Rightarrow> ExampleBuilder" where
  "ExampleBuilder_init tok m =
     \<lparr>tokenizer = tok, current_sentences = [], current_length = 0,
      max_length = m, target_length = m\<rparr>"

text \<open>
  \<open>_make_tf_example\<close> (lines 141 to 162). The three dictionary lookups raise
  \<open>KeyError\<close> on a vocabulary without the marker.
\<close>

definition make_tf_example :: "ExampleBuilder \<Rightarrow> int list \<Rightarrow> int list \<Rightarrow> Example outcome" where
  "make_tf_example b first_segment second_segment =
     (case vocab (tokenizer b) (str ''[CLS]'') of
        None \<Rightarrow> Raised KeyError
      | Some CLS \<Rightarrow>
     (case vocab (tokenizer b) (str ''[SEP]'') of
        None \<Rightarrow> Raised KeyError
      | Some SEP \<Rightarrow>
     (case vocab (tokenizer b) (str ''[PAD]'') of
        None \<Rightarrow> Raised KeyError
      | Some PAD \<Rightarrow>
          (let ids0 = [CLS] @ first_segment @ [SEP];
               seg0 = repeated 0 (len ids0);
               ids1 = (if second_segment \<noteq> [] then ids0 @ second_segment @ [SEP] else ids0);
               seg1 = (if second_segment \<noteq> [] then seg0 @ repeated 1 (len second_segment + 1)
                       else seg0);
               mask1 = repeated 1 (len ids1)
           in Returned
             \<lparr>input_ids = ids1 @ repeated PAD (max_length b - len ids1),
              input_mask = mask1 @ repeated 0 (max_length b - len mask1),
              segment_ids = seg1 @ repeated 0 (max_length b - len seg1)\<rparr>))))"

text \<open>
  \<open>_create_example\<close>, lines 104 to 108: the target length of the first segment.
\<close>

definition first_segment_target_length :: "ExampleBuilder \<Rightarrow> rng \<Rightarrow> int \<times> rng" where
  "first_segment_target_length b g =
     (case random_random g of (u, g1) \<Rightarrow>
        (if u < 1 / 10 then 100000 else (target_length b - 3) div 2, g1))"

text \<open>
  \<open>_create_example\<close>, lines 110 to 123: the loop over the pending sentences. The
  condition is evaluated left to right and stops at the first disjunct that holds, so
  the coin is drawn only when the first two disjuncts fail and the first two conjuncts
  of the third hold.
\<close>

fun distribute ::
  "int \<Rightarrow> int list list \<Rightarrow> int list \<Rightarrow> int list \<Rightarrow> rng \<Rightarrow> int list \<times> int list \<times> rng" where
  "distribute tgt [] first_segment second_segment g = (first_segment, second_segment, g)"
| "distribute tgt (sentence # rest) first_segment second_segment g =
     (if len first_segment = 0 \<or> len first_segment + len sentence < tgt
      then distribute tgt rest (first_segment @ sentence) second_segment g
      else if len second_segment = 0 \<and> len first_segment < tgt
      then (case random_random g of (u, g1) \<Rightarrow>
              if u < 1 / 2 then distribute tgt rest (first_segment @ sentence) second_segment g1
              else distribute tgt rest first_segment (second_segment @ sentence) g1)
      else distribute tgt rest first_segment (second_segment @ sentence) g)"

text \<open>Lines 104 to 123 together: the two segments before they are cut.\<close>

definition packed_segments :: "ExampleBuilder \<Rightarrow> rng \<Rightarrow> int list \<times> int list \<times> rng" where
  "packed_segments b g =
     (case first_segment_target_length b g of (tgt, g1) \<Rightarrow>
        distribute tgt (current_sentences b) [] [] g1)"

text \<open>\<open>_create_example\<close>, lines 126 to 128: the two slices.\<close>

definition trim :: "ExampleBuilder \<Rightarrow> int list \<Rightarrow> int list \<Rightarrow> int list \<times> int list" where
  "trim b first_segment second_segment =
     (let first_trimmed = slice_to first_segment (max_length b - 2);
          second_trimmed = slice_to second_segment (max 0 (max_length b - len first_trimmed - 3))
      in (first_trimmed, second_trimmed))"

text \<open>\<open>_create_example\<close>, lines 134 to 137: the next target length.\<close>

definition next_target_length :: "ExampleBuilder \<Rightarrow> rng \<Rightarrow> int outcome \<times> rng" where
  "next_target_length b g =
     (case random_random g of (u, g1) \<Rightarrow>
        if u < 1 / 20 then random_randint 5 (max_length b) g1
        else (Returned (max_length b), g1))"

text \<open>
  \<open>_create_example\<close> as a whole. When \<open>randint\<close> raises, the accumulator has been reset
  already and the target length is the old one.
\<close>

definition create_example :: "ExampleBuilder \<Rightarrow> rng \<Rightarrow> Example outcome \<times> ExampleBuilder \<times> rng" where
  "create_example b g =
     (case packed_segments b g of (first_segment, second_segment, g2) \<Rightarrow>
      case trim b first_segment second_segment of (first_trimmed, second_trimmed) \<Rightarrow>
        (let b1 = b\<lparr>current_sentences := [], current_length := 0\<rparr> in
         case next_target_length b1 g2 of
           (Raised e, g3) \<Rightarrow> (Raised e, b1, g3)
         | (Returned t, g3) \<Rightarrow>
             (let b2 = b1\<lparr>target_length := t\<rparr>
              in (make_tf_example b2 first_trimmed second_trimmed, b2, g3))))"

text \<open>\<open>return self._create_example()\<close> inside \<open>add_line\<close>, whose result is optional.\<close>

fun returning ::
  "Example outcome \<times> ExampleBuilder \<times> rng \<Rightarrow> Example option outcome \<times> ExampleBuilder \<times> rng" where
  "returning (Raised e, b, g) = (Raised e, b, g)"
| "returning (Returned ex, b, g) = (Returned (Some ex), b, g)"

text \<open>\<open>add_line\<close> (lines 88 to 99).\<close>

definition add_line ::
  "ExampleBuilder \<Rightarrow> rng \<Rightarrow> pystr \<Rightarrow> Example option outcome \<times> ExampleBuilder \<times> rng" where
  "add_line b g raw =
     (let line = replace_newline (py_strip raw) in
      if line = [] \<and> current_length b \<noteq> 0 then returning (create_example b g)
      else
        (let bert_tokens = tokenize line;
             bert_tokids = convert_tokens_to_ids (tokenizer b) bert_tokens;
             b1 = b\<lparr>current_sentences := current_sentences b @ [bert_tokids],
                    current_length := current_length b + len bert_tokids\<rparr>
         in if current_length b1 \<ge> target_length b1 then returning (create_example b1 g)
            else (Returned None, b1, g)))"

section \<open>ExampleWriter and the worker\<close>

text \<open>
  A \<open>TFRecordWriter\<close> is the shard it owns: the records written so far and whether the
  handle has been closed. A record is kept as the example it serializes. Whether a
  write fails is decided by the environment: \<open>fails n\<close> says that the write attempted
  after \<open>n\<close> successful ones raises. A write on a closed handle raises as well.
\<close>

record TFRecordWriter =
  records :: "Example list"
  is_closed :: bool

record ExampleWriter =
  blanks_separate_docs :: bool
  example_builder :: ExampleBuilder
  writers :: "TFRecordWriter list"
  n_written :: int

text \<open>
  \<open>ExampleWriter.__init__\<close> (lines 168 to 187), without the copy of the vocabulary
  that job 0 saves. The tokenizer is built before any shard is opened. The remainder
  \<open>i % num_jobs\<close> raises \<open>ZeroDivisionError\<close> for zero jobs.
\<close>

definition ExampleWriter_init ::
  "int \<Rightarrow> pystr list \<Rightarrow> int \<Rightarrow> int \<Rightarrow> bool \<Rightarrow> int \<Rightarrow> ExampleWriter outcome" where
  "ExampleWriter_init job_id vocab_file max_seq_length num_jobs blanks num_out_files =
     (case Tokenizer_init vocab_file of
        Raised e \<Rightarrow> Raised e
      | Returned tok \<Rightarrow>
          if num_jobs = 0 \<and> 0 < num_out_files then Raised ZeroDivisionError
          else Returned
            \<lparr>blanks_separate_docs = blanks,
             example_builder = ExampleBuilder_init tok max_seq_length,
             writers = map (\<lambda>i. \<lparr>records = [], is_closed = False\<rparr>)
                         (filter (\<lambda>i. i mod num_jobs = job_id) [0..num_out_files - 1]),
             n_written = 0\<rparr>)"

text \<open>
  The three statements that write one example (lines 197 and 198, again 201 to 203):
  the shard is chosen by \<open>n_written % len(writers)\<close>, which raises for a writer
  without shards.
\<close>

definition write_example ::
  "(int \<Rightarrow> bool) \<Rightarrow> ExampleWriter \<Rightarrow> Example \<Rightarrow> unit outcome \<times> ExampleWriter" where
  "write_example fails w ex =
     (if len (writers w) = 0 then (Raised ZeroDivisionError, w)
      else
        (let k = nat (n_written w mod len (writers w));
             wr = writers w ! k
         in if is_closed wr \<or> fails (n_written w) then (Raised IOError, w)
            else (Returned (),
                  w\<lparr>writers := (writers w)[k := wr\<lparr>records := records wr @ [ex]\<rparr>],
                    n_written := n_written w + 1\<rparr>)))"

text \<open>\<open>add_line\<close> followed by \<open>if example: write\<close> (lines 195 to 198 and 199 to 203).\<close>

definition add_and_write ::
  "(int \<Rightarrow> bool) \<Rightarrow> ExampleWriter \<Rightarrow> rng \<Rightarrow> pystr \<Rightarrow> unit outcome \<times> ExampleWriter \<times> rng" where
  "add_and_write fails w g line =
     (case add_line (example_builder w) g line of
        (Raised e, b, g1) \<Rightarrow> (Raised e, w\<lparr>example_builder := b\<rparr>, g1)
      | (Returned None, b, g1) \<Rightarrow> (Returned (), w\<lparr>example_builder := b\<rparr>, g1)
      | (Returned (Some ex), b, g1) \<Rightarrow>
          (case write_example fails (w\<lparr>example_builder := b\<rparr>) ex of
             (out, w1) \<Rightarrow> (out, w1, g1)))"

text \<open>The loop over the lines of one input file (lines 192 to 198).\<close>

fun write_lines ::
  "(int \<Rightarrow> bool) \<Rightarrow> ExampleWriter \<Rightarrow> rng \<Rightarrow> pystr list \<Rightarrow> unit outcome \<times> ExampleWriter \<times> rng" where
  "write_lines fails w g [] = (Returned (), w, g)"
| "write_lines fails w g (raw # rest) =
     (let line = py_strip raw in
      if line \<noteq> [] \<or> blanks_separate_docs w then
        (case add_and_write fails w g line of
           (Raised e, w1, g1) \<Rightarrow> (Raised e, w1, g1)
         | (Returned u, w1, g1) \<Rightarrow> write_lines fails w1 g1 rest)
      else write_lines fails w g rest)"

text \<open>\<open>ExampleWriter.write_examples\<close> (lines 189 to 203): the loop, then the flush.\<close>

definition ExampleWriter_write_examples ::
  "(int \<Rightarrow> bool) \<Rightarrow> ExampleWriter \<Rightarrow> rng \<Rightarrow> pystr list \<Rightarrow> unit outcome \<times> ExampleWriter \<times> rng" where
  "ExampleWriter_write_examples fails w g input_file =
     (case write_lines fails w g input_file of
        (Raised e, w1, g1) \<Rightarrow> (Raised e, w1, g1)
      | (Returned u, w1, g1) \<Rightarrow> add_and_write fails w1 g1 [])"

text \<open>\<open>ExampleWriter.finish\<close> (lines 205 to 207).\<close>

definition ExampleWriter_finish :: "ExampleWriter \<Rightarrow> ExampleWriter" where
  "ExampleWriter_finish w = w\<lparr>writers := map (\<lambda>wr. wr\<lparr>is_closed := True\<rparr>) (writers w)\<rparr>"

text \<open>
  The worker \<open>write_examples(job_id, args)\<close> (lines 210 to 243), without its progress
  log. \<open>files\<close> holds the contents of the job's input files in the order in which the
  loop of line 233 visits them, and \<open>g\<close> is the random source as the shuffle of line
  231 leaves it. No statement of the function catches an exception: an error raised
  while a file is processed leaves the function at once.
\<close>

fun process_files ::
  "(int \<Rightarrow> bool) \<Rightarrow> ExampleWriter \<Rightarrow> rng \<Rightarrow> pystr list list \<Rightarrow>
     unit outcome \<times> ExampleWriter \<times> rng" where
  "process_files fails w g [] = (Returned (), w, g)"
| "process_files fails w g (input_file # rest) =
     (case ExampleWriter_write_examples fails w g input_file of
        (Raised e, w1, g1) \<Rightarrow> (Raised e, w1, g1)
      | (Returned u, w1, g1) \<Rightarrow> process_files fails w1 g1 rest)"

record Args =
  vocab_file :: "pystr list"
  max_seq_length :: int
  num_processes :: int
  blanks_separate_docs_flag :: bool
  num_out_files :: int

definition write_examples ::
  "(int \<Rightarrow> bool) \<Rightarrow> int \<Rightarrow> Args \<Rightarrow> rng \<Rightarrow> pystr list list \<Rightarrow>
     unit outcome \<times> ExampleWriter option \<times> rng" where
  "write_examples fails job_id args g files =
     (case ExampleWriter_init job_id (vocab_file args) (max_seq_length args)
             (num_processes args) (blanks_separate_docs_flag args) (num_out_files args) of
        Raised e \<Rightarrow> (Raised e, None, g)
      | Returned example_writer \<Rightarrow>
          (case process_files fails example_writer g files of
             (Raised e, w1, g1) \<Rightarrow> (Raised e, Some w1, g1)
           | (Returned u, w1, g1) \<Rightarrow> (Returned (), Some (ExampleWriter_finish w1), g1)))"

section \<open>Vocabulary of the properties\<close>

text \<open>
  The fields of a vocabulary line in the words of the specification: the
  whitespace-separated fields of its stripped content; the piece is the first of them.
\<close>

definition line_fields :: "pystr \<Rightarrow> pystr list" where
  "line_fields line = py_split (py_strip line)"

definition piece_of :: "pystr \<Rightarrow> pystr" where
  "piece_of line = (case line_fields line of [] \<Rightarrow> [] | piece # rest \<Rightarrow> piece)"

text \<open>The invariant of the accumulator: the pending length is the sum of the lengths.\<close>

definition length_invariant :: "ExampleBuilder \<Rightarrow> bool" where
  "length_invariant b \<longleftrightarrow> current_length b = sum_list (map len (current_sentences b))"

text \<open>The tokenizer of an empty vocabulary file: the five markers only.\<close>

definition plain_tokenizer :: Tokenizer where
  "plain_tokenizer = \<lparr>vocab = reserved_vocab, unk_id = 1\<rparr>"






text \<open>
  What construction establishes and every \<open>add_line\<close> keeps when the maximum length is
  at least 5: the length invariant, a positive target length, and the three markers
  under their reserved ids.
\<close>

definition ready :: "ExampleBuilder \<Rightarrow> bool" where
  "ready b \<longleftrightarrow>
     length_invariant b \<and> 5 \<le> max_length b \<and> 1 \<le> target_length b \<and>
     vocab (tokenizer b) (str ''[CLS]'') = Some 2 \<and>
     vocab (tokenizer b) (str ''[SEP]'') = Some 3 \<and>
     vocab (tokenizer b) (str ''[PAD]'') = Some 0"

text \<open>
  The assembly of the specification (4.3) over the reserved ids 2 for \<open>[CLS]\<close>, 3 for
  \<open>[SEP]\<close> and 0 for \<open>[PAD]\<close>, with \<open>k\<close> positions of padding. An example with
  content is the assembly of a non-empty first segment and some second segment.
\<close>

definition assemble :: "int list \<Rightarrow> int list \<Rightarrow> nat \<Rightarrow> Example" where
  "assemble first_segment second_segment k =
     \<lparr>input_ids = [2] @ first_segment @ [3] @
                  (if second_segment = [] then [] else second_segment @ [3]) @ replicate k 0,
      input_mask = replicate (length first_segment + 2 +
                     (if second_segment = [] then 0 else length second_segment + 1)) 1 @
                   replicate k 0,
      segment_ids = replicate (length first_segment + 2) 0 @
                    (if second_segment = [] then [] else replicate (length second_segment + 1) 1) @
                    replicate k 0\<rparr>"

definition with_content :: "Example \<Rightarrow> bool" where
  "with_content ex \<longleftrightarrow>
     (\<exists>first_segment second_segment k.
        first_segment \<noteq> [] \<and> ex = assemble first_segment second_segment k)"

definition shards_with_content :: "ExampleWriter \<Rightarrow> bool" where
  "shards_with_content w \<longleftrightarrow>
     (\<forall>wr\<in>set (writers w). \<forall>ex\<in>set (records wr). with_content ex)"

text \<open>
  What each step of the worker carries over from the writer it starts from: which
  handles are closed, and, once established, the readiness of the builder and the content
  of the shards.
\<close>

definition carried :: "ExampleWriter \<Rightarrow> ExampleWriter \<Rightarrow> bool" where
  "carried w w' \<longleftrightarrow>
     map is_closed (writers w') = map is_closed (writers w) \<and>
     (ready (example_builder w) \<and> shards_with_content w \<longrightarrow>
        ready (example_builder w') \<and> shards_with_content w')"

text \<open>
  The end-to-end scenario of the specification: the corpus of two documents,
  \<open>the cat sat\<close> and \<open>it ran home\<close>, separated by a blank line, examples of 16
  tokens, one worker, one shard, blank lines separating documents; the vocabulary file
  has the one line \<open>the 10\<close>.
\<close>

definition scenario_args :: Args where
  "scenario_args =
     \<lparr>vocab_file = [str ''the 10''], max_seq_length = 16, num_processes = 1,
      blanks_separate_docs_flag = True, num_out_files = 1\<rparr>"

definition scenario_files :: "pystr list list" where
  "scenario_files = [[str ''the cat sat'', [], str ''it ran home'']]"

definition scenario_first :: Example where
  "scenario_first =
     \<lparr>input_ids = [2, 5, 1, 1, 3, 0, 0, 0, 0, 0, 0, 0, 0, 0, 0, 0],
      input_mask = [1, 1, 1, 1, 1, 0, 0, 0, 0, 0, 0, 0, 0, 0, 0, 0],
      segment_ids = [0, 0, 0, 0, 0, 0, 0, 0, 0, 0, 0, 0, 0, 0, 0, 0]\<rparr>"

definition scenario_second :: Example where
  "scenario_second =
     \<lparr>input_ids = [2, 1, 1, 1, 3, 0, 0, 0, 0, 0, 0, 0, 0, 0, 0, 0],
      input_mask = [1, 1, 1, 1, 1, 0, 0, 0, 0, 0, 0, 0, 0, 0, 0, 0],
      segment_ids = [0, 0, 0, 0, 0, 0, 0, 0, 0, 0, 0, 0, 0, 0, 0, 0]\<rparr>"

section \<open>Strings and the vocabulary file\<close>

lemma dropWhile_fix: "xs = [] \<or> \<not> P (hd xs) \<Longrightarrow> dropWhile P xs = xs"
  by (cases xs) auto

lemma hd_rev_dropWhile_rev:
  "rev (dropWhile P (rev xs)) \<noteq> [] \<Longrightarrow> hd (rev (dropWhile P (rev xs))) = hd xs"
  by (metis Nil_is_rev_conv dropWhile_eq_Nil_conv dropWhile_last hd_rev last_rev)

lemma py_strip_idem: "py_strip (py_strip s) = py_strip s"
proof -
  let ?a = "dropWhile isspace s"
  let ?t = "rev (dropWhile isspace (rev ?a))"
  have "?t = [] \<or> \<not> isspace (hd ?t)"
  proof (cases "?t = []")
    case False
    then have "hd ?t = hd ?a" by (rule hd_rev_dropWhile_rev)
    moreover have "?a \<noteq> []"
    proof
      assume "?a = []"
      then have "?t = []" by (auto dest: set_dropWhileD)
      with False show False by simp
    qed
    then have "\<not> isspace (hd ?a)" by (rule hd_dropWhile)
    ultimately show ?thesis by simp
  qed simp
  then have "dropWhile isspace ?t = ?t" by (rule dropWhile_fix)
  then show ?thesis by (simp add: py_strip_def)
qed

lemma py_strip_whitespace: "\<forall>c\<in>set s. isspace c \<Longrightarrow> py_strip s = []"
proof -
  assume "\<forall>c\<in>set s. isspace c"
  then show ?thesis by (auto simp: py_strip_def dest: set_dropWhileD)
qed

lemma blank_line: "\<forall>c\<in>set raw. isspace c \<Longrightarrow> replace_newline (py_strip raw) = []"
  by (simp add: py_strip_whitespace replace_newline_def)

lemma tokenize_Nil: "tokenize [] = []"
  by (simp add: tokenize_def py_strip_def py_split_def)

lemma load_vocab_returns:
  "(\<exists>v'. load_vocab v i vf = Returned v') \<longleftrightarrow>
     (\<forall>line\<in>set vf. length (line_fields line) = 2) \<and> distinct (map piece_of vf) \<and>
     (\<forall>line\<in>set vf. v (piece_of line) = None)"
proof (induction vf arbitrary: v i)
  case Nil
  show ?case by simp
next
  case (Cons line rest)
  show ?case
  proof (cases "\<exists>p f. line_fields line = [p, f]")
    case True
    then obtain p f where pf: "line_fields line = [p, f]" by blast
    then have piece: "piece_of line = p" and two: "length (line_fields line) = 2"
      by (simp_all add: piece_of_def)
    have split: "py_split (py_strip (py_strip line)) = [p, f]"
      using pf by (simp add: py_strip_idem line_fields_def)
    show ?thesis
    proof (cases "v p = None")
      case True
      have "(\<exists>v'. load_vocab v i (line # rest) = Returned v') \<longleftrightarrow>
            (\<exists>v'. load_vocab (v(p \<mapsto> i)) (i + 1) rest = Returned v')"
        using split True by simp
      also have "\<dots> \<longleftrightarrow> (\<forall>l\<in>set rest. length (line_fields l) = 2) \<and> distinct (map piece_of rest) \<and>
            (\<forall>l\<in>set rest. (v(p \<mapsto> i)) (piece_of l) = None)"
        by (rule Cons.IH)
      also have "\<dots> \<longleftrightarrow> (\<forall>l\<in>set (line # rest). length (line_fields l) = 2) \<and>
            distinct (map piece_of (line # rest)) \<and>
            (\<forall>l\<in>set (line # rest). v (piece_of l) = None)"
        using piece two True by (auto simp: image_iff)
      finally show ?thesis .
    next
      case False
      then have "load_vocab v i (line # rest) = Raised AssertionError"
        using split by simp
      with False piece show ?thesis by auto
    qed
  next
    case False
    then have n2: "length (line_fields line) \<noteq> 2"
      by (auto simp: numeral_2_eq_2 length_Suc_conv)
    have "load_vocab v i (line # rest) = Raised ValueError"
      using False by (simp add: py_strip_idem line_fields_def [symmetric] split: list.splits)
    with n2 show ?thesis by simp
  qed
qed

lemma dom_reserved_vocab:
  "dom reserved_vocab =
     {str ''[PAD]'', str ''[UNK]'', str ''[CLS]'', str ''[SEP]'', str ''[MASK]''}"
  by (auto simp: reserved_vocab_def)

text \<open>
  Claim C10. Constructing the tokenizer succeeds exactly for the vocabulary files in
  which the stripped content of every line has exactly two whitespace-separated fields,
  no piece occurs twice and no piece is one of the five markers. In particular a blank
  line, a line with one field and a line with three fields make the construction fail,
  as a repeated piece does.
\<close>

theorem Tokenizer_init_succeeds_iff:
  "(\<exists>t. Tokenizer_init vf = Returned t) \<longleftrightarrow>
     (\<forall>line\<in>set vf. length (line_fields line) = 2) \<and>
     distinct (map piece_of vf) \<and>
     (\<forall>line\<in>set vf. piece_of line \<notin>
        {str ''[PAD]'', str ''[UNK]'', str ''[CLS]'', str ''[SEP]'', str ''[MASK]''})"
proof -
  have "(\<exists>t. Tokenizer_init vf = Returned t) \<longleftrightarrow>
        (\<exists>v'. load_vocab reserved_vocab 5 vf = Returned v')"
    by (auto simp: Tokenizer_init_def split: outcome.splits)
  also have "\<dots> \<longleftrightarrow> (\<forall>line\<in>set vf. length (line_fields line) = 2) \<and>
     distinct (map piece_of vf) \<and> (\<forall>line\<in>set vf. reserved_vocab (piece_of line) = None)"
    by (rule load_vocab_returns)
  also have "\<dots> \<longleftrightarrow> (\<forall>line\<in>set vf. length (line_fields line) = 2) \<and>
     distinct (map piece_of vf) \<and> (\<forall>line\<in>set vf. piece_of line \<notin> dom reserved_vocab)"
    by (simp add: domIff)
  finally show ?thesis by (simp only: dom_reserved_vocab)
qed

theorem Tokenizer_init_succeeds_iff_witness:
  "(\<exists>t. Tokenizer_init [str ''the 10'' @ [10], str ''cat 7'' @ [10]] = Returned t) \<and>
   \<not> (\<exists>t. Tokenizer_init [str ''the 10'' @ [10], [10]] = Returned t) \<and>
   \<not> (\<exists>t. Tokenizer_init [str ''the'' @ [10]] = Returned t) \<and>
   \<not> (\<exists>t. Tokenizer_init [str ''the 10 x'' @ [10]] = Returned t) \<and>
   \<not> (\<exists>t. Tokenizer_init [str ''the 10'' @ [10], str ''the 7'' @ [10]] = Returned t) \<and>
   \<not> (\<exists>t. Tokenizer_init [str ''[SEP] 10'' @ [10]] = Returned t)"
  using Tokenizer_init_succeeds_iff [of "[str ''the 10'' @ [10], str ''cat 7'' @ [10]]"]
    Tokenizer_init_succeeds_iff [of "[str ''the 10'' @ [10], [10]]"]
    Tokenizer_init_succeeds_iff [of "[str ''the'' @ [10]]"]
    Tokenizer_init_succeeds_iff [of "[str ''the 10 x'' @ [10]]"]
    Tokenizer_init_succeeds_iff [of "[str ''the 10'' @ [10], str ''the 7'' @ [10]]"]
    Tokenizer_init_succeeds_iff [of "[str ''[SEP] 10'' @ [10]]"]
  by (simp_all add: line_fields_def piece_of_def str_def py_strip_def isspace_def py_split_def)


text \<open>The markers keep their ids: the assertion lets no line overwrite a key.\<close>

lemma load_vocab_extends:
  "load_vocab v i vf = Returned v' \<Longrightarrow> v k = Some x \<Longrightarrow> v' k = Some x"
proof (induction vf arbitrary: v i)
  case Nil
  then show ?case by simp
next
  case (Cons line rest)
  from Cons.prems(1) obtain p f where
    "py_split (py_strip (py_strip line)) = [p, f]" and "v p = None"
    and "load_vocab (v(p \<mapsto> i)) (i + 1) rest = Returned v'"
    by (auto split: list.splits if_splits)
  moreover from \<open>v p = None\<close> Cons.prems(2) have "(v(p \<mapsto> i)) k = Some x" by auto
  ultimately show ?case using Cons.IH by blast
qed

lemma Tokenizer_init_markers:
  assumes "Tokenizer_init vf = Returned tok"
  shows "vocab tok (str ''[CLS]'') = Some 2 \<and> vocab tok (str ''[SEP]'') = Some 3 \<and>
         vocab tok (str ''[PAD]'') = Some 0"
proof -
  from assms obtain v where lv: "load_vocab reserved_vocab 5 vf = Returned v"
    and tok: "tok = \<lparr>vocab = v, unk_id = 1\<rparr>"
    by (auto simp: Tokenizer_init_def split: outcome.splits)
  have "reserved_vocab (str ''[CLS]'') = Some 2" "reserved_vocab (str ''[SEP]'') = Some 3"
    "reserved_vocab (str ''[PAD]'') = Some 0"
    by (simp_all add: reserved_vocab_def str_def)
  with load_vocab_extends [OF lv] tok show ?thesis by simp
qed

section \<open>The accumulator\<close>

lemma replicate_numeral: "replicate (numeral k) x = x # replicate (pred_numeral k) x"
  by (simp add: numeral_eq_Suc)

lemmas run_defs = replicate_numeral
  add_line_def create_example_def packed_segments_def first_segment_target_length_def
  trim_def next_target_length_def make_tf_example_def random_random_def random_randint_def
  advance_def slice_to_def repeated_def len_def tokenize_def convert_tokens_to_ids_def
  py_split_def py_strip_def replace_newline_def isspace_def str_def
  ExampleBuilder_init_def plain_tokenizer_def reserved_vocab_def



lemma create_example_resets:
  "create_example b g = (out, b', g') \<Longrightarrow>
     current_sentences b' = [] \<and> current_length b' = 0 \<and>
     max_length b' = max_length b \<and> tokenizer b' = tokenizer b"
  by (auto simp: create_example_def Let_def split: prod.splits outcome.splits)

lemma returning_state: "snd (returning r) = snd r"
  by (cases r rule: returning.cases) simp_all

lemma returning_not_None: "fst (returning r) \<noteq> Returned None"
  by (cases r rule: returning.cases) simp_all

lemma returning_Some:
  "returning r = (Returned (Some ex), b', g') \<longleftrightarrow> r = (Returned ex, b', g')"
  "(Returned (Some ex), b', g') = returning r \<longleftrightarrow> r = (Returned ex, b', g')"
  by (cases r rule: returning.cases; auto)+

text \<open>The three ways through \<open>add_line\<close>.\<close>

lemma add_line_shape:
  "add_line b g raw = returning (create_example b g) \<and> current_length b \<noteq> 0 \<or>
   (\<exists>ids. ids = convert_tokens_to_ids (tokenizer b) (tokenize (replace_newline (py_strip raw))) \<and>
      (add_line b g raw =
         returning (create_example (b\<lparr>current_sentences := current_sentences b @ [ids],
                                      current_length := current_length b + len ids\<rparr>) g) \<and>
       target_length b \<le> current_length b + len ids \<or>
       add_line b g raw =
         (Returned None, b\<lparr>current_sentences := current_sentences b @ [ids],
                            current_length := current_length b + len ids\<rparr>, g)))"
  unfolding add_line_def Let_def by auto

lemma add_line_emits:
  assumes "add_line b g raw = (Returned (Some ex), b', g')"
  shows "\<exists>b1. create_example b1 g = (Returned ex, b', g') \<and> max_length b1 = max_length b \<and>
           tokenizer b1 = tokenizer b \<and>
           (b1 = b \<and> current_length b \<noteq> 0 \<or>
            (\<exists>ids. b1 = b\<lparr>current_sentences := current_sentences b @ [ids],
                           current_length := current_length b + len ids\<rparr> \<and>
                    target_length b \<le> current_length b + len ids))"
proof -
  let ?ids = "convert_tokens_to_ids (tokenizer b) (tokenize (replace_newline (py_strip raw)))"
  let ?b1 = "b\<lparr>current_sentences := current_sentences b @ [?ids],
                current_length := current_length b + len ?ids\<rparr>"
  from add_line_shape [of b g raw] assms
  consider "create_example b g = (Returned ex, b', g')" "current_length b \<noteq> 0"
    | "create_example ?b1 g = (Returned ex, b', g')"
      "target_length b \<le> current_length b + len ?ids"
    by (auto simp: returning_Some)
  then show ?thesis
  proof cases
    case 1
    then show ?thesis by (intro exI [of _ b]) simp
  next
    case 2
    then show ?thesis by (intro exI [of _ ?b1]) auto
  qed
qed

lemma length_invariant_add_line:
  assumes "length_invariant b"
  shows "length_invariant (fst (snd (add_line b g raw)))"
proof -
  have reset: "length_invariant (fst (snd (returning (create_example c h))))" for c h
  proof -
    obtain out c' h' where ce: "create_example c h = (out, c', h')"
      by (cases "create_example c h") auto
    from create_example_resets [OF ce] have "length_invariant c'"
      by (simp add: length_invariant_def)
    with ce show ?thesis by (simp add: returning_state)
  qed
  from add_line_shape [of b g raw] assms reset show ?thesis
    by (auto simp: length_invariant_def)
qed

subsection \<open>Blank lines\<close>

text \<open>
  Claim C6, as the code has it. On an accumulator without pending tokens and with a
  positive target length, \<open>add_line\<close> with a whitespace-only line returns nothing,
  leaves the pending length, the target length and the random source as they are, and
  appends one empty token sequence to the pending sentences.
\<close>

theorem add_line_blank_when_idle:
  assumes "current_length b = 0" and "0 < target_length b" and "\<forall>c\<in>set raw. isspace c"
  shows "add_line b g raw =
           (Returned None, b\<lparr>current_sentences := current_sentences b @ [[]]\<rparr>, g)"
  using assms by (simp add: add_line_def blank_line tokenize_Nil convert_tokens_to_ids_def len_def)

theorem add_line_blank_when_idle_witness:
  "add_line (ExampleBuilder_init plain_tokenizer 128) (\<lambda>n. 0) (str ''  '') =
     (Returned None,
      (ExampleBuilder_init plain_tokenizer 128)\<lparr>current_sentences := [[]]\<rparr>, (\<lambda>n. 0))"
  using add_line_blank_when_idle
    [of "ExampleBuilder_init plain_tokenizer 128" "str ''  ''" "\<lambda>n. 0"]
  by (simp add: ExampleBuilder_init_def str_def isspace_def)

text \<open>
  The claim as stated fails on a fresh builder: the pending sentences are no longer the
  empty list after the call.
\<close>

theorem add_line_blank_not_noop:
  "current_length (ExampleBuilder_init plain_tokenizer 128) = 0 \<and>
   current_sentences (ExampleBuilder_init plain_tokenizer 128) = [] \<and>
   current_sentences
     (fst (snd (add_line (ExampleBuilder_init plain_tokenizer 128) (\<lambda>n. 0) []))) = [[]]"
  by (simp add: run_defs)

lemma create_example_outcome:
  assumes "vocab (tokenizer b) (str ''[CLS]'') = Some 2"
    and "vocab (tokenizer b) (str ''[SEP]'') = Some 3"
    and "vocab (tokenizer b) (str ''[PAD]'') = Some 0"
  shows "(\<exists>ex. fst (create_example b g) = Returned ex) \<or>
         max_length b < 5 \<and> fst (create_example b g) = Raised ValueError"
  using assms
  by (auto simp: create_example_def next_target_length_def random_randint_def
      make_tf_example_def Let_def split: prod.splits)

text \<open>
  Claim C4, as the code has it. On an accumulator with pending tokens, over a
  constructed tokenizer, \<open>add_line\<close> with a whitespace-only line is the call of
  \<open>_create_example\<close> on the unchanged accumulator, whatever the target length is. It
  returns the example of that call; only when the maximum length is below 5 can the call
  raise \<open>ValueError\<close> instead, and then \<open>add_line\<close> raises it.
\<close>

theorem add_line_blank_forces_example:
  assumes "current_length b \<noteq> 0" and "\<forall>c\<in>set raw. isspace c"
    and "Tokenizer_init vf = Returned (tokenizer b)"
  shows "add_line b g raw = returning (create_example b g) \<and>
         ((\<exists>ex. fst (add_line b g raw) = Returned (Some ex) \<and>
                fst (create_example b g) = Returned ex) \<or>
          max_length b < 5 \<and> fst (add_line b g raw) = Raised ValueError)"
proof -
  have eq: "add_line b g raw = returning (create_example b g)"
    using assms(1,2) by (simp add: add_line_def blank_line)
  from Tokenizer_init_markers [OF assms(3)]
  have "(\<exists>ex. fst (create_example b g) = Returned ex) \<or>
      max_length b < 5 \<and> fst (create_example b g) = Raised ValueError"
    by (intro create_example_outcome) simp_all
  then have "(\<exists>ex. fst (returning (create_example b g)) = Returned (Some ex) \<and>
        fst (create_example b g) = Returned ex) \<or>
      max_length b < 5 \<and> fst (returning (create_example b g)) = Raised ValueError"
    by (cases "create_example b g" rule: returning.cases) auto
  with eq show ?thesis by simp
qed

theorem add_line_blank_forces_example_witness:
  "current_length \<lparr>tokenizer = plain_tokenizer, current_sentences = [[5]], current_length = 1,
      max_length = 8, target_length = 8\<rparr> < 8 \<and>
   fst (add_line \<lparr>tokenizer = plain_tokenizer, current_sentences = [[5]], current_length = 1,
      max_length = 8, target_length = 8\<rparr> (\<lambda>n. 2 ^ 52) (str '' '')) =
     Returned (Some \<lparr>input_ids = [2, 5, 3, 0, 0, 0, 0, 0],
       input_mask = [1, 1, 1, 0, 0, 0, 0, 0], segment_ids = [0, 0, 0, 0, 0, 0, 0, 0]\<rparr>)"
  using add_line_blank_forces_example
    [of "\<lparr>tokenizer = plain_tokenizer, current_sentences = [[5]], current_length = 1,
      max_length = 8, target_length = 8\<rparr>" "str '' ''" "[]" "\<lambda>n. 2 ^ 52"]
  by (simp add: run_defs Tokenizer_init_def)

text \<open>
  The claim as stated fails for a maximum length of 4: after the line \<open>a\<close> one token
  is pending, and with every draw 0 the blank line raises \<open>ValueError\<close> and returns no
  example.
\<close>

theorem add_line_blank_raises:
  "current_length
     (fst (snd (add_line (ExampleBuilder_init plain_tokenizer 4) (\<lambda>n. 0) (str ''a'')))) = 1 \<and>
   fst (add_line
     (fst (snd (add_line (ExampleBuilder_init plain_tokenizer 4) (\<lambda>n. 0) (str ''a''))))
     (\<lambda>n. 0) []) = Raised ValueError"
  by (simp add: run_defs)

subsection \<open>The length invariant\<close>

text \<open>
  Claim C7. The pending length is the sum of the lengths of the pending sentences after
  construction, and every \<open>add_line\<close> keeps it so, on each of its paths: the state it
  leaves is the state after the reset when it creates an example (also when that
  raises), and the state with the new sentence otherwise.
\<close>

theorem length_invariant_preserved:
  "length_invariant (ExampleBuilder_init tok m) \<and>
   (length_invariant b \<longrightarrow> length_invariant (fst (snd (add_line b g raw))))"
  by (simp add: length_invariant_add_line) (simp add: length_invariant_def ExampleBuilder_init_def)

theorem length_invariant_preserved_witness:
  "length_invariant (ExampleBuilder_init plain_tokenizer 8) \<and>
   length_invariant
     (fst (snd (add_line (ExampleBuilder_init plain_tokenizer 8) (\<lambda>n. 0) (str ''a b'')))) \<and>
   current_sentences
     (fst (snd (add_line (ExampleBuilder_init plain_tokenizer 8) (\<lambda>n. 0) (str ''a b'')))) =
     [[1, 1]]"
  using length_invariant_preserved
    [of plain_tokenizer 8 "ExampleBuilder_init plain_tokenizer 8" "\<lambda>n. 0" "str ''a b''"]
  by (simp add: run_defs)

subsection \<open>Packing\<close>





subsection \<open>Truncation\<close>

text \<open>
  Claim C2, as the code has it. The first segment is cut to its prefix of
  \<open>max_length - 2\<close> tokens when \<open>max_length\<close> is at least 2; below 2 the bound of the
  slice is negative and the slice drops the last \<open>2 - max_length\<close> tokens instead. The
  second segment is cut to its prefix of \<open>max(0, max_length - len(first_segment) - 3)\<close>
  tokens, for every \<open>max_length\<close>.
\<close>

theorem trim_keeps_prefixes:
  "fst (trim b f s) =
     take (nat (if 2 \<le> max_length b then max_length b - 2 else len f + (max_length b - 2))) f \<and>
   snd (trim b f s) = take (nat (max 0 (max_length b - len (fst (trim b f s)) - 3))) s \<and>
   (2 \<le> max_length b \<longrightarrow> len (fst (trim b f s)) \<le> max_length b - 2) \<and>
   len (snd (trim b f s)) \<le> max 0 (max_length b - len (fst (trim b f s)) - 3)"
  by (auto simp: trim_def slice_to_def len_def Let_def min_def max_def)

theorem trim_keeps_prefixes_witness:
  "trim (ExampleBuilder_init plain_tokenizer 8) [5, 6, 7, 8, 9, 10, 11] [12, 13] =
     ([5, 6, 7, 8, 9, 10], []) \<and>
   trim (ExampleBuilder_init plain_tokenizer 8) [5, 6, 7] [12, 13, 14] = ([5, 6, 7], [12, 13])"
  using trim_keeps_prefixes
      [of "ExampleBuilder_init plain_tokenizer 8" "[5, 6, 7, 8, 9, 10, 11]" "[12, 13]"]
    trim_keeps_prefixes [of "ExampleBuilder_init plain_tokenizer 8" "[5, 6, 7]" "[12, 13, 14]"]
  by (simp add: ExampleBuilder_init_def len_def prod_eq_iff)

text \<open>
  With \<open>max_length = 1\<close> the bound \<open>max_length - 2\<close> is negative and a first segment of
  two tokens keeps one of them.
\<close>

theorem trim_negative_bound:
  "max_length (ExampleBuilder_init plain_tokenizer 1) - 2 = - 1 \<and>
   fst (trim (ExampleBuilder_init plain_tokenizer 1) [7, 8] []) = [7]"
  by (simp add: run_defs)

subsection \<open>Lengths of the emitted example\<close>

lemma make_tf_example_lengths:
  assumes "make_tf_example b f s = Returned ex"
    and "(if s = [] then len f + 2 else len f + len s + 3) \<le> max_length b"
  shows "len (input_ids ex) = max_length b \<and> len (input_mask ex) = max_length b \<and>
         len (segment_ids ex) = max_length b"
  using assms
  by (auto simp: make_tf_example_def Let_def len_def repeated_def split: option.splits if_splits)

lemma trim_fits:
  assumes "2 \<le> max_length b" and "trim b f s = (f', s')"
  shows "(if s' = [] then len f' + 2 else len f' + len s' + 3) \<le> max_length b"
  using assms by (auto simp: trim_def slice_to_def len_def Let_def split: if_splits)

lemma create_example_lengths:
  assumes "2 \<le> max_length b" and "create_example b g = (Returned ex, b', g')"
  shows "len (input_ids ex) = max_length b \<and> len (input_mask ex) = max_length b \<and>
         len (segment_ids ex) = max_length b"
proof -
  obtain f s g2 where ps: "packed_segments b g = (f, s, g2)"
    by (cases "packed_segments b g") auto
  obtain f' s' where tr: "trim b f s = (f', s')"
    by (cases "trim b f s") auto
  from assms(2) ps tr obtain b2 where mk: "make_tf_example b2 f' s' = Returned ex"
    and m: "max_length b2 = max_length b"
    by (auto simp: create_example_def Let_def split: prod.splits outcome.splits)
  from trim_fits [OF assms(1) tr] make_tf_example_lengths [OF mk] m show ?thesis by simp
qed

text \<open>
  Claim C3, as the code has it. When \<open>max_length\<close> is at least 2, every example that
  \<open>add_line\<close> returns, for a line of text or for the empty line of the flush, has
  \<open>input_ids\<close>, \<open>input_mask\<close> and \<open>segment_ids\<close> of length exactly \<open>max_length\<close>.
\<close>

theorem emitted_lengths:
  assumes "2 \<le> max_length b" and "add_line b g raw = (Returned (Some ex), b', g')"
  shows "len (input_ids ex) = max_length b \<and> len (input_mask ex) = max_length b \<and>
         len (segment_ids ex) = max_length b"
proof -
  from add_line_emits [OF assms(2)] obtain b1
    where "create_example b1 g = (Returned ex, b', g')" and "max_length b1 = max_length b"
    by blast
  with create_example_lengths [of b1 g ex b' g'] assms(1) show ?thesis by simp
qed

theorem emitted_lengths_witness:
  "fst (add_line \<lparr>tokenizer = plain_tokenizer, current_sentences = [[5, 6], [7, 8]],
        current_length = 4, max_length = 8, target_length = 8\<rparr> (\<lambda>n. 2 ^ 52)
        (str ''a b c d'')) =
     Returned (Some \<lparr>input_ids = [2, 5, 6, 3, 7, 8, 1, 3],
       input_mask = [1, 1, 1, 1, 1, 1, 1, 1], segment_ids = [0, 0, 0, 0, 1, 1, 1, 1]\<rparr>) \<and>
   len [2, 5, 6, 3, 7, 8, 1, 3 :: int] = 8"
  using emitted_lengths
    [of "\<lparr>tokenizer = plain_tokenizer, current_sentences = [[5, 6], [7, 8]],
        current_length = 4, max_length = 8, target_length = 8\<rparr>"
      "\<lambda>n. 2 ^ 52" "str ''a b c d''"
      "\<lparr>input_ids = [2, 5, 6, 3, 7, 8, 1, 3],
       input_mask = [1, 1, 1, 1, 1, 1, 1, 1], segment_ids = [0, 0, 0, 0, 1, 1, 1, 1]\<rparr>"
      "fst (snd (add_line \<lparr>tokenizer = plain_tokenizer, current_sentences = [[5, 6], [7, 8]],
        current_length = 4, max_length = 8, target_length = 8\<rparr> (\<lambda>n. 2 ^ 52)
        (str ''a b c d'')))"
      "snd (snd (add_line \<lparr>tokenizer = plain_tokenizer, current_sentences = [[5, 6], [7, 8]],
        current_length = 4, max_length = 8, target_length = 8\<rparr> (\<lambda>n. 2 ^ 52)
        (str ''a b c d'')))"]
  by (simp add: run_defs)

text \<open>
  With \<open>max_length = 1\<close> the example of a line of two tokens has three ids: the first
  segment keeps one token and the padding is empty.
\<close>

theorem emitted_lengths_counterexample:
  "max_length (ExampleBuilder_init plain_tokenizer 1) = 1 \<and>
   fst (add_line (ExampleBuilder_init plain_tokenizer 1) (\<lambda>n. 2 ^ 52) (str ''a cat'')) =
     Returned (Some \<lparr>input_ids = [2, 1, 3], input_mask = [1, 1, 1], segment_ids = [0, 0, 0]\<rparr>)"
  by (simp add: run_defs)


subsection \<open>The next target length\<close>

lemma randint_range:
  "5 \<le> m \<Longrightarrow> 5 \<le> 5 + int k mod (m - 4) \<and> 5 + int k mod (m - 4) \<le> m"
  by (smt (verit) pos_mod_bound pos_mod_sign)

lemma random_randint_onto:
  assumes "a \<le> n" and "n \<le> b"
  shows "\<exists>g. fst (random_randint a b g) = Returned n"
proof -
  let ?g = "\<lambda>i::nat. nat (n - a)"
  from assms have "int (?g 0) mod (b - a + 1) = n - a" by simp
  with assms have "fst (random_randint a b ?g) = Returned n"
    by (simp add: random_randint_def)
  then show ?thesis by (rule exI [of _ ?g])
qed

lemma make_tf_example_raises: "make_tf_example c x y = Raised e \<Longrightarrow> e = KeyError"
  by (auto simp: make_tf_example_def Let_def split: option.splits)

lemma create_example_target:
  assumes "5 \<le> max_length b" and "create_example b g = (out, b', g')"
  shows "5 \<le> target_length b' \<and> target_length b' \<le> max_length b"
  using assms randint_range [of "max_length b"]
  by (auto simp: create_example_def next_target_length_def random_randint_def Let_def
      split: prod.splits outcome.splits if_splits)

text \<open>
  Claim C5, as the code has it. The accumulator is reset and the segments of the current
  example are packed from the old target length; the draw that follows the packing
  decides the next target length. At or above 1/20 it is \<open>max_length\<close>. Below 1/20 it
  is \<open>randint(5, max_length)\<close>: for \<open>max_length\<close> at least 5 an integer of
  \<open>[5, max_length]\<close>, each of which some draw yields; for \<open>max_length\<close> below 5 the
  call raises \<open>ValueError\<close>, no example is returned and the target length stays.
\<close>

theorem target_length_redrawn:
  assumes "packed_segments b g = (f, s, g2)" and "random_random g2 = (u, g3)"
    and "create_example b g = (out, b', g')"
  shows "current_sentences b' = [] \<and> current_length b' = 0 \<and>
    (\<not> u < 1 / 20 \<longrightarrow> target_length b' = max_length b \<and> g' = g3) \<and>
    (u < 1 / 20 \<and> 5 \<le> max_length b \<longrightarrow>
       target_length b' = 5 + int (g3 0) mod (max_length b - 4) \<and>
       5 \<le> target_length b' \<and> target_length b' \<le> max_length b \<and> g' = advance g3 \<and>
       (\<forall>t. 5 \<le> t \<and> t \<le> max_length b \<longrightarrow>
          (\<exists>h. fst (random_randint 5 (max_length b) h) = Returned t))) \<and>
    (u < 1 / 20 \<and> max_length b < 5 \<longrightarrow>
       out = Raised ValueError \<and> target_length b' = target_length b \<and> g' = g3) \<and>
    (out \<noteq> Raised ValueError \<longrightarrow>
       out = make_tf_example b' (fst (trim b f s)) (snd (trim b f s)))"
proof -
  have onto: "\<forall>t. 5 \<le> t \<and> t \<le> max_length b \<longrightarrow>
      (\<exists>h. fst (random_randint 5 (max_length b) h) = Returned t)"
    by (simp add: random_randint_onto)
  have "current_sentences b' = [] \<and> current_length b' = 0 \<and>
    (\<not> u < 1 / 20 \<longrightarrow> target_length b' = max_length b \<and> g' = g3) \<and>
    (u < 1 / 20 \<and> 5 \<le> max_length b \<longrightarrow>
       target_length b' = 5 + int (g3 0) mod (max_length b - 4) \<and>
       5 \<le> target_length b' \<and> target_length b' \<le> max_length b \<and> g' = advance g3) \<and>
    (u < 1 / 20 \<and> max_length b < 5 \<longrightarrow>
       out = Raised ValueError \<and> target_length b' = target_length b \<and> g' = g3) \<and>
    (out \<noteq> Raised ValueError \<longrightarrow>
       out = make_tf_example b' (fst (trim b f s)) (snd (trim b f s)))"
    using assms randint_range [of "max_length b" "g3 0"]
    by (auto simp: create_example_def next_target_length_def random_randint_def Let_def
        split: prod.splits outcome.splits if_splits dest: make_tf_example_raises)
  with onto show ?thesis by blast
qed

theorem target_length_redrawn_witness:
  "target_length (fst (snd (create_example
      \<lparr>tokenizer = plain_tokenizer, current_sentences = [[5]], current_length = 1,
       max_length = 8, target_length = 8\<rparr>
      (\<lambda>n. if n = 1 then 0 else 4503599627370498)))) = 7 \<and>
   target_length (fst (snd (create_example
      \<lparr>tokenizer = plain_tokenizer, current_sentences = [[5]], current_length = 1,
       max_length = 8, target_length = 6\<rparr> (\<lambda>n. 2 ^ 52)))) = 8"
  using target_length_redrawn
      [of "\<lparr>tokenizer = plain_tokenizer, current_sentences = [[5]], current_length = 1,
            max_length = 8, target_length = 8\<rparr>"
          "\<lambda>n. if n = 1 then 0 else 4503599627370498"
          "[5]" "[]" "\<lambda>n. if n = 0 then 0 else 4503599627370498"
          0 "\<lambda>n. 4503599627370498"
          "fst (create_example \<lparr>tokenizer = plain_tokenizer, current_sentences = [[5]],
             current_length = 1, max_length = 8, target_length = 8\<rparr>
            (\<lambda>n. if n = 1 then 0 else 4503599627370498))"
          "fst (snd (create_example \<lparr>tokenizer = plain_tokenizer, current_sentences = [[5]],
             current_length = 1, max_length = 8, target_length = 8\<rparr>
            (\<lambda>n. if n = 1 then 0 else 4503599627370498)))"
          "snd (snd (create_example \<lparr>tokenizer = plain_tokenizer, current_sentences = [[5]],
             current_length = 1, max_length = 8, target_length = 8\<rparr>
            (\<lambda>n. if n = 1 then 0 else 4503599627370498)))"]
    target_length_redrawn
      [of "\<lparr>tokenizer = plain_tokenizer, current_sentences = [[5]], current_length = 1,
            max_length = 8, target_length = 6\<rparr>" "\<lambda>n. 2 ^ 52"
          "[5]" "[]" "\<lambda>n. 2 ^ 52" "1 / 2" "\<lambda>n. 2 ^ 52"
          "fst (create_example \<lparr>tokenizer = plain_tokenizer, current_sentences = [[5]],
             current_length = 1, max_length = 8, target_length = 6\<rparr> (\<lambda>n. 2 ^ 52))"
          "fst (snd (create_example \<lparr>tokenizer = plain_tokenizer, current_sentences = [[5]],
             current_length = 1, max_length = 8, target_length = 6\<rparr> (\<lambda>n. 2 ^ 52)))"
          "snd (snd (create_example \<lparr>tokenizer = plain_tokenizer, current_sentences = [[5]],
             current_length = 1, max_length = 8, target_length = 6\<rparr> (\<lambda>n. 2 ^ 52)))"]
  by (simp add: packed_segments_def first_segment_target_length_def random_random_def
      advance_def len_def)

text \<open>
  With \<open>max_length = 4\<close> and a draw below 1/20 the call raises: there is no integer
  in \<open>[5, 4]\<close>, and the target length is not drawn.
\<close>

theorem target_length_redraw_raises:
  "max_length \<lparr>tokenizer = plain_tokenizer, current_sentences = [[5]], current_length = 1,
      max_length = 4, target_length = 4\<rparr> = 4 \<and>
   fst (create_example \<lparr>tokenizer = plain_tokenizer, current_sentences = [[5]],
      current_length = 1, max_length = 4, target_length = 4\<rparr> (\<lambda>n. 0)) = Raised ValueError"
  by (simp add: run_defs)

section \<open>The worker\<close>

subsection \<open>Examples with content\<close>

lemma distribute_first_nonempty:
  "f \<noteq> [] \<or> (\<exists>x\<in>set ss. x \<noteq> []) \<Longrightarrow> fst (distribute tgt ss f s g) \<noteq> []"
proof (induction ss arbitrary: f s g)
  case Nil
  then show ?case by simp
next
  case (Cons x xs)
  show ?case
  proof (cases "f = []")
    case True
    with Cons.prems have "x \<noteq> [] \<or> (\<exists>y\<in>set xs. y \<noteq> [])" by auto
    then have "fst (distribute tgt xs ([] @ x) s g) \<noteq> []"
      by (intro Cons.IH) auto
    with True show ?thesis by (simp add: len_def)
  next
    case False
    have a: "fst (distribute tgt xs (f @ x) s' g') \<noteq> []" for s' g'
      by (rule Cons.IH) (simp add: False)
    have b: "fst (distribute tgt xs f s' g') \<noteq> []" for s' g'
      by (rule Cons.IH) (simp add: False)
    show ?thesis by (simp add: a b split: prod.splits)
  qed
qed

lemma no_content_no_length: "\<forall>x\<in>set ss. x = [] \<Longrightarrow> sum_list (map len ss) = 0"
  by (induction ss) (auto simp: len_def)

lemma pending_content:
  assumes "sum_list (map len ss) \<noteq> 0"
  shows "\<exists>x\<in>set ss. x \<noteq> []"
  using assms no_content_no_length [of ss] by blast

lemma replicate_eq_length: "replicate a x = replicate a' x \<Longrightarrow> a = a'"
proof -
  assume "replicate a x = replicate a' x"
  then have "length (replicate a x) = length (replicate a' x)" by (rule arg_cong)
  then show "a = a'" by simp
qed

lemma takeWhile_ones:
  "takeWhile (\<lambda>x. x = 1) (replicate n (1::int) @ replicate m 0) = replicate n 1"
  by (induction n) (simp_all add: takeWhile_replicate)

lemma takeWhile_zeros:
  "takeWhile (\<lambda>x. x = 0) (replicate m (0::int) @ replicate (Suc j) 1 @ zs) = replicate m 0"
  by (induction m) simp_all

lemma ones_then_zeros:
  assumes "replicate a (1::int) @ replicate k 0 = replicate a' 1 @ replicate k' 0"
  shows "a = a' \<and> k = k'"
proof -
  from assms have "takeWhile (\<lambda>x. x = 1) (replicate a (1::int) @ replicate k 0) =
      takeWhile (\<lambda>x. x = 1) (replicate a' (1::int) @ replicate k' 0)"
    by simp
  then have "replicate a (1::int) = replicate a' 1" by (simp only: takeWhile_ones)
  then have a: "a = a'" by (rule replicate_eq_length)
  with assms have "replicate k (0::int) = replicate k' 0" by simp
  then have "k = k'" by (rule replicate_eq_length)
  with a show ?thesis by simp
qed

lemma zeros_then_ones:
  assumes "replicate a (0::int) @ replicate (Suc n) 1 @ xs =
      replicate a' 0 @ replicate (Suc n') 1 @ ys"
  shows "a = a'"
proof -
  from assms have "takeWhile (\<lambda>x. x = 0) (replicate a (0::int) @ replicate (Suc n) 1 @ xs) =
      takeWhile (\<lambda>x. x = 0) (replicate a' (0::int) @ replicate (Suc n') 1 @ ys)"
    by simp
  then have "replicate a (0::int) = replicate a' 0" by (simp only: takeWhile_zeros)
  then show "a = a'" by (rule replicate_eq_length)
qed

lemma second_segment_marked: "1 \<in> set (segment_ids (assemble f s k)) \<longleftrightarrow> s \<noteq> []"
  by (auto simp: assemble_def)

text \<open>
  The three sequences of an example determine its segments: the mask gives the length
  of the content, the segment ids tell whether there is a second segment and where it
  starts, and the ids give the tokens.
\<close>

lemma assemble_inject:
  assumes "assemble f s k = assemble f' s' k'"
  shows "f = f' \<and> s = s' \<and> k = k'"
proof -
  from assms have ids: "input_ids (assemble f s k) = input_ids (assemble f' s' k')"
    and mask: "input_mask (assemble f s k) = input_mask (assemble f' s' k')"
    and seg: "segment_ids (assemble f s k) = segment_ids (assemble f' s' k')"
    by simp_all
  from mask have "replicate (length f + 2 + (if s = [] then 0 else length s + 1)) (1::int) @
      replicate k 0 =
      replicate (length f' + 2 + (if s' = [] then 0 else length s' + 1)) 1 @ replicate k' 0"
    by (simp add: assemble_def)
  then have nk: "length f + 2 + (if s = [] then 0 else length s + 1) =
      length f' + 2 + (if s' = [] then 0 else length s' + 1) \<and> k = k'"
    by (rule ones_then_zeros)
  from seg have both: "s = [] \<longleftrightarrow> s' = []"
    using second_segment_marked [of f s k] second_segment_marked [of f' s' k'] by simp
  have lf: "length f = length f'"
  proof (cases "s = []")
    case True
    with both nk show ?thesis by simp
  next
    case False
    with both have "s' \<noteq> []" by simp
    with False seg have "replicate (length f + 2) (0::int) @ replicate (Suc (length s)) 1 @
        replicate k 0 =
        replicate (length f' + 2) 0 @ replicate (Suc (length s')) 1 @ replicate k' 0"
      by (simp add: assemble_def)
    then have "length f + 2 = length f' + 2" by (rule zeros_then_ones)
    then show ?thesis by simp
  qed
  from ids lf have f: "f = f'"
    and rest: "(if s = [] then [] else s @ [3]) @ replicate k (0::int) =
      (if s' = [] then [] else s' @ [3]) @ replicate k' 0"
    by (simp_all add: assemble_def)
  from rest nk both have "s = s'" by (auto split: if_splits)
  with f nk show ?thesis by simp
qed

lemma assemble_unmasked: "f \<noteq> [] \<Longrightarrow> 3 \<le> sum_list (input_mask (assemble f s k))"
  by (cases f) (simp_all add: assemble_def sum_list_replicate)

lemma make_tf_example_assembles:
  assumes "make_tf_example b f s = Returned ex"
    and "vocab (tokenizer b) (str ''[CLS]'') = Some 2"
    and "vocab (tokenizer b) (str ''[SEP]'') = Some 3"
    and "vocab (tokenizer b) (str ''[PAD]'') = Some 0"
  shows "ex = assemble f s
           (nat (max_length b - (len f + 2 + (if s = [] then 0 else len s + 1))))"
  using assms
  by (cases "s = []")
    (auto simp: make_tf_example_def assemble_def Let_def repeated_def len_def nat_add_distrib
      replicate_add [symmetric] simp del: replicate_add)

lemma make_tf_example_content:
  assumes "make_tf_example b f s = Returned ex" and "f \<noteq> []"
    and "vocab (tokenizer b) (str ''[CLS]'') = Some 2"
    and "vocab (tokenizer b) (str ''[SEP]'') = Some 3"
    and "vocab (tokenizer b) (str ''[PAD]'') = Some 0"
  shows "with_content ex"
  using make_tf_example_assembles [OF assms(1,3,4,5)] assms(2)
  unfolding with_content_def by blast

lemma create_example_content:
  assumes "sum_list (map len (current_sentences b)) \<noteq> 0" and "3 \<le> max_length b"
    and "vocab (tokenizer b) (str ''[CLS]'') = Some 2"
    and "vocab (tokenizer b) (str ''[SEP]'') = Some 3"
    and "vocab (tokenizer b) (str ''[PAD]'') = Some 0"
    and "create_example b g = (Returned ex, b', g')"
  shows "with_content ex"
proof -
  obtain tgt g1 where tl: "first_segment_target_length b g = (tgt, g1)"
    by (cases "first_segment_target_length b g") auto
  obtain f s g2 where ps: "packed_segments b g = (f, s, g2)"
    by (cases "packed_segments b g") auto
  obtain f' s' where tr: "trim b f s = (f', s')"
    by (cases "trim b f s") auto
  from pending_content [OF assms(1)]
  have "fst (distribute tgt (current_sentences b) [] [] g1) \<noteq> []"
    by (intro distribute_first_nonempty) simp
  with ps tl have "f \<noteq> []" by (simp add: packed_segments_def)
  with assms(2) tr have "f' \<noteq> []"
    by (auto simp: trim_def slice_to_def Let_def)
  moreover from assms(6) ps tr obtain b2 where "make_tf_example b2 f' s' = Returned ex"
    and "tokenizer b2 = tokenizer b"
    by (auto simp: create_example_def Let_def split: prod.splits outcome.splits)
  ultimately show ?thesis using assms(3,4,5) by (auto intro: make_tf_example_content)
qed

lemma ready_emits_content:
  assumes "ready b" and "add_line b g raw = (Returned (Some ex), b', g')"
  shows "with_content ex"
proof -
  from add_line_emits [OF assms(2)] obtain b1 where
    ce: "create_example b1 g = (Returned ex, b', g')" and m: "max_length b1 = max_length b"
    and t: "tokenizer b1 = tokenizer b"
    and how: "b1 = b \<and> current_length b \<noteq> 0 \<or>
            (\<exists>ids. b1 = b\<lparr>current_sentences := current_sentences b @ [ids],
                           current_length := current_length b + len ids\<rparr> \<and>
                    target_length b \<le> current_length b + len ids)"
    by blast
  from how assms(1) have "sum_list (map len (current_sentences b1)) \<noteq> 0"
    by (auto simp: ready_def length_invariant_def)
  with ce m t assms(1) show ?thesis
    by (auto simp: ready_def intro: create_example_content)
qed

lemma ready_after_create_example:
  assumes "5 \<le> max_length c" and "vocab (tokenizer c) (str ''[CLS]'') = Some 2"
    and "vocab (tokenizer c) (str ''[SEP]'') = Some 3"
    and "vocab (tokenizer c) (str ''[PAD]'') = Some 0"
  shows "ready (fst (snd (returning (create_example c h))))"
proof -
  obtain out c' h' where ce: "create_example c h = (out, c', h')"
    by (cases "create_example c h") auto
  from create_example_resets [OF ce] create_example_target [OF assms(1) ce] assms
  have "ready c'" by (simp add: ready_def length_invariant_def)
  with ce show ?thesis by (simp add: returning_state)
qed

lemma ready_preserved:
  assumes "ready b"
  shows "ready (fst (snd (add_line b g raw)))"
proof -
  let ?ids = "convert_tokens_to_ids (tokenizer b) (tokenize (replace_newline (py_strip raw)))"
  let ?b1 = "b\<lparr>current_sentences := current_sentences b @ [?ids],
                current_length := current_length b + len ?ids\<rparr>"
  from add_line_shape [of b g raw]
  consider "add_line b g raw = returning (create_example b g)"
    | "add_line b g raw = returning (create_example ?b1 g)"
    | "add_line b g raw = (Returned None, ?b1, g)"
    by auto
  moreover from assms have pre: "5 \<le> max_length b"
    "vocab (tokenizer b) (str ''[CLS]'') = Some 2"
    "vocab (tokenizer b) (str ''[SEP]'') = Some 3"
    "vocab (tokenizer b) (str ''[PAD]'') = Some 0"
    by (simp_all add: ready_def)
  ultimately show ?thesis
  proof cases
    case 1
    from ready_after_create_example [OF pre, of g] 1 show ?thesis by simp
  next
    case 2
    from pre have "ready (fst (snd (returning (create_example ?b1 g))))"
      by (intro ready_after_create_example) simp_all
    with 2 show ?thesis by simp
  next
    case 3
    with assms show ?thesis by (simp add: ready_def length_invariant_def)
  qed
qed

lemma ready_init:
  assumes "Tokenizer_init vf = Returned tok" and "5 \<le> m"
  shows "ready (ExampleBuilder_init tok m)"
  using Tokenizer_init_markers [OF assms(1)] assms(2)
  by (simp add: ready_def length_invariant_def ExampleBuilder_init_def)

subsection \<open>What the worker keeps from step to step\<close>

lemma carried_refl: "carried w w"
  by (simp add: carried_def)

lemma carried_trans: "carried w w1 \<Longrightarrow> carried w1 w2 \<Longrightarrow> carried w w2"
  by (simp add: carried_def)

lemma closed_list_update:
  "k < length ws \<Longrightarrow> map is_closed (ws[k := (ws ! k)\<lparr>records := r\<rparr>]) = map is_closed ws"
  by (simp add: list_eq_iff_nth_eq nth_list_update)

lemma shard_index: "len ws \<noteq> 0 \<Longrightarrow> nat (n mod len ws) < length ws"
  by (simp add: len_def nat_less_iff)

lemma write_example_carried:
  assumes "write_example fails w ex = (out, w')" and "with_content ex"
  shows "carried w w'"
proof (cases "len (writers w) = 0 \<or> is_closed (writers w ! nat (n_written w mod len (writers w))) \<or>
    fails (n_written w)")
  case True
  with assms(1) have "w' = w" by (auto simp: write_example_def Let_def split: if_splits)
  then show ?thesis by (simp add: carried_refl)
next
  case False
  let ?k = "nat (n_written w mod len (writers w))"
  let ?wr = "writers w ! ?k"
  from False have k: "?k < length (writers w)" by (simp add: shard_index)
  from False assms(1) have w': "w' = w\<lparr>writers := (writers w)[?k := ?wr\<lparr>records := records ?wr @ [ex]\<rparr>],
      n_written := n_written w + 1\<rparr>"
    by (auto simp: write_example_def Let_def split: if_splits)
  have "shards_with_content w'" if "shards_with_content w"
    unfolding shards_with_content_def
  proof (intro ballI)
    fix wr y assume wr: "wr \<in> set (writers w')" and y: "y \<in> set (records wr)"
    from wr w' have "wr = ?wr\<lparr>records := records ?wr @ [ex]\<rparr> \<or> wr \<in> set (writers w)"
      using set_update_subset_insert [of "writers w" ?k] by auto
    moreover from k have "?wr \<in> set (writers w)" by simp
    ultimately show "with_content y"
      using that y assms(2) by (auto simp: shards_with_content_def)
  qed
  with k w' show ?thesis by (simp add: carried_def closed_list_update)
qed

lemma add_and_write_carried:
  assumes "add_and_write fails w g line = (out, w', g')"
  shows "carried w w'"
proof -
  obtain r b g1 where al: "add_line (example_builder w) g line = (r, b, g1)"
    by (cases "add_line (example_builder w) g line") auto
  have step: "carried w (w\<lparr>example_builder := b\<rparr>)"
    using ready_preserved [of "example_builder w" g line] al
    by (simp add: carried_def shards_with_content_def)
  show ?thesis
  proof (cases "\<exists>ex. r = Returned (Some ex)")
    case False
    with assms al have "w' = w\<lparr>example_builder := b\<rparr>"
      by (auto simp: add_and_write_def split: outcome.splits option.splits)
    with step show ?thesis by simp
  next
    case True
    then obtain ex where r: "r = Returned (Some ex)" by blast
    with assms al have we: "write_example fails (w\<lparr>example_builder := b\<rparr>) ex = (out, w')"
      by (auto simp: add_and_write_def split: prod.splits)
    show ?thesis
    proof (cases "ready (example_builder w)")
      case True
      from ready_emits_content [OF True] al r have "with_content ex" by simp
      from step write_example_carried [OF we this] show ?thesis by (rule carried_trans)
    next
      case False
      from we have "map is_closed (writers w') = map is_closed (writers w)"
        by (auto simp: write_example_def Let_def closed_list_update shard_index split: if_splits)
      with False show ?thesis by (simp add: carried_def)
    qed
  qed
qed

lemma write_lines_carried:
  "write_lines fails w g ls = (out, w', g') \<Longrightarrow> carried w w'"
proof (induction ls arbitrary: w g)
  case Nil
  then show ?case by (simp add: carried_refl)
next
  case (Cons raw rest)
  show ?case
  proof (cases "py_strip raw \<noteq> [] \<or> blanks_separate_docs w")
    case False
    with Cons.prems have "write_lines fails w g rest = (out, w', g')" by simp
    then show ?thesis by (rule Cons.IH)
  next
    case True
    obtain r w1 g1 where aw: "add_and_write fails w g (py_strip raw) = (r, w1, g1)"
      by (cases "add_and_write fails w g (py_strip raw)") auto
    note first = add_and_write_carried [OF aw]
    show ?thesis
    proof (cases r)
      case (Raised e)
      with True aw Cons.prems have "w' = w1" by auto
      with first show ?thesis by simp
    next
      case (Returned u)
      with True aw Cons.prems have "write_lines fails w1 g1 rest = (out, w', g')" by auto
      from first Cons.IH [OF this] show ?thesis by (rule carried_trans)
    qed
  qed
qed

lemma ExampleWriter_write_examples_carried:
  assumes "ExampleWriter_write_examples fails w g input_file = (out, w', g')"
  shows "carried w w'"
proof -
  obtain r w1 g1 where wl: "write_lines fails w g input_file = (r, w1, g1)"
    by (cases "write_lines fails w g input_file") auto
  note first = write_lines_carried [OF wl]
  show ?thesis
  proof (cases r)
    case (Raised e)
    with wl assms have "w' = w1" by (simp add: ExampleWriter_write_examples_def)
    with first show ?thesis by simp
  next
    case (Returned u)
    with wl assms have "add_and_write fails w1 g1 [] = (out, w', g')"
      by (simp add: ExampleWriter_write_examples_def)
    from first add_and_write_carried [OF this] show ?thesis by (rule carried_trans)
  qed
qed

lemma process_files_carried:
  "process_files fails w g files = (out, w', g') \<Longrightarrow> carried w w'"
proof (induction files arbitrary: w g)
  case Nil
  then show ?case by (simp add: carried_refl)
next
  case (Cons input_file rest)
  obtain r w1 g1 where we: "ExampleWriter_write_examples fails w g input_file = (r, w1, g1)"
    by (cases "ExampleWriter_write_examples fails w g input_file") auto
  note first = ExampleWriter_write_examples_carried [OF we]
  show ?case
  proof (cases r)
    case (Raised e)
    with we Cons.prems have "w' = w1" by simp
    with first show ?thesis by simp
  next
    case (Returned u)
    with we Cons.prems have "process_files fails w1 g1 rest = (out, w', g')" by simp
    from first Cons.IH [OF this] show ?thesis by (rule carried_trans)
  qed
qed

lemma ExampleWriter_init_fresh:
  assumes "ExampleWriter_init job_id vf m num_jobs blanks n = Returned w"
  shows "(\<forall>wr\<in>set (writers w). \<not> is_closed wr) \<and> shards_with_content w \<and>
         (5 \<le> m \<longrightarrow> ready (example_builder w))"
  using assms
  by (auto simp: ExampleWriter_init_def shards_with_content_def ready_init
      split: outcome.splits if_splits)

lemma worker_outcome:
  assumes "write_examples fails job_id args g files = (out, Some w, g')"
  shows "\<exists>w0 w1. ExampleWriter_init job_id (vocab_file args) (max_seq_length args)
             (num_processes args) (blanks_separate_docs_flag args) (num_out_files args) =
           Returned w0 \<and> carried w0 w1 \<and>
           (out = Returned () \<and> w = ExampleWriter_finish w1 \<or> (\<exists>e. out = Raised e) \<and> w = w1)"
proof -
  from assms obtain w0 where init: "ExampleWriter_init job_id (vocab_file args)
      (max_seq_length args) (num_processes args) (blanks_separate_docs_flag args)
      (num_out_files args) = Returned w0"
    by (auto simp: write_examples_def split: outcome.splits)
  obtain r w1 g1 where pf: "process_files fails w0 g files = (r, w1, g1)"
    by (cases "process_files fails w0 g files") auto
  from assms init pf have "out = Returned () \<and> w = ExampleWriter_finish w1 \<or>
      (\<exists>e. out = Raised e) \<and> w = w1"
    by (cases r) (auto simp: write_examples_def)
  with init process_files_carried [OF pf] show ?thesis by blast
qed

subsection \<open>The scenario, run\<close>

lemmas worker_defs =
  write_examples_def ExampleWriter_init_def Tokenizer_init_def process_files.simps
  ExampleWriter_write_examples_def write_lines.simps add_and_write_def write_example_def
  ExampleWriter_finish_def scenario_args_def scenario_files_def scenario_first_def
  scenario_second_def

text \<open>No write fails: both documents are written and the shard is closed.\<close>

lemma scenario_run:
  "write_examples (\<lambda>n. False) 0 scenario_args (\<lambda>n. 2 ^ 52) scenario_files =
   (Returned (),
    Some \<lparr>blanks_separate_docs = True,
      example_builder = ExampleBuilder_init
        \<lparr>vocab = reserved_vocab(str ''the'' \<mapsto> 5), unk_id = 1\<rparr> 16,
      writers = [\<lparr>records = [scenario_first, scenario_second], is_closed = True\<rparr>],
      n_written = 2\<rparr>,
    (\<lambda>n. 2 ^ 52))"
  by (simp add: worker_defs run_defs upto.simps)

text \<open>The second write fails: the error leaves the worker and the shard stays open.\<close>

lemma scenario_failing_run:
  "write_examples (\<lambda>n. n = 1) 0 scenario_args (\<lambda>n. 2 ^ 52) scenario_files =
   (Raised IOError,
    Some \<lparr>blanks_separate_docs = True,
      example_builder = ExampleBuilder_init
        \<lparr>vocab = reserved_vocab(str ''the'' \<mapsto> 5), unk_id = 1\<rparr> 16,
      writers = [\<lparr>records = [scenario_first], is_closed = False\<rparr>],
      n_written = 1\<rparr>,
    (\<lambda>n. 2 ^ 52))"
  by (simp add: worker_defs run_defs upto.simps)

subsection \<open>The claims about the worker\<close>

text \<open>
  Claim C9, as the code has it. For a maximum sequence length of at least 5, whatever
  the vocabulary, the input files, the random draws and the failures of the shards,
  every example that the worker has written (each is an example that \<open>add_line\<close>
  returned, for a line or for the flush at the end of a file) is the assembly of a
  non-empty first segment: the id 2 of \<open>[CLS]\<close>, the first segment, the id 3 of
  \<open>[SEP]\<close>, then the second segment with its separator if there is one, then padding.
  The example determines its segments, so the first segment is non-empty in every
  reading of it, and at least three positions are unmasked. Nothing is said of the ids
  inside the segments: they are the ids of the tokens of the text.
\<close>

theorem written_examples_have_content:
  assumes "5 \<le> max_seq_length args"
    and "write_examples fails job_id args g files = (out, Some w, g')"
  shows "vocab (tokenizer (example_builder w)) (str ''[CLS]'') = Some 2 \<and>
         vocab (tokenizer (example_builder w)) (str ''[SEP]'') = Some 3 \<and>
         vocab (tokenizer (example_builder w)) (str ''[PAD]'') = Some 0 \<and>
         (\<forall>wr\<in>set (writers w). \<forall>ex\<in>set (records wr).
            (\<exists>first_segment second_segment k.
               first_segment \<noteq> [] \<and> ex = assemble first_segment second_segment k \<and>
               (\<forall>f s j. ex = assemble f s j \<longrightarrow>
                  f = first_segment \<and> s = second_segment \<and> j = k)) \<and>
            3 \<le> sum_list (input_mask ex))"
proof -
  from worker_outcome [OF assms(2)] obtain w0 w1 where
    init: "ExampleWriter_init job_id (vocab_file args) (max_seq_length args)
             (num_processes args) (blanks_separate_docs_flag args) (num_out_files args) =
           Returned w0"
    and c: "carried w0 w1" and w: "w = ExampleWriter_finish w1 \<or> w = w1"
    by blast
  from ExampleWriter_init_fresh [OF init] assms(1) c
  have "ready (example_builder w1)" and "shards_with_content w1"
    by (simp_all add: carried_def)
  with w have r: "ready (example_builder w)" and sh: "shards_with_content w"
    by (auto simp: ExampleWriter_finish_def shards_with_content_def)
  have "(\<exists>first_segment second_segment k.
           first_segment \<noteq> [] \<and> ex = assemble first_segment second_segment k \<and>
           (\<forall>f s j. ex = assemble f s j \<longrightarrow>
              f = first_segment \<and> s = second_segment \<and> j = k)) \<and>
        3 \<le> sum_list (input_mask ex)"
    if "with_content ex" for ex
  proof -
    from that obtain f0 s0 k0 where f0: "f0 \<noteq> []" and ex: "ex = assemble f0 s0 k0"
      unfolding with_content_def by blast
    have "\<forall>f s j. ex = assemble f s j \<longrightarrow> f = f0 \<and> s = s0 \<and> j = k0"
      using assemble_inject [of f0 s0 k0] ex by auto
    with f0 ex assemble_unmasked [OF f0, of s0 k0] show ?thesis by blast
  qed
  with sh have "\<forall>wr\<in>set (writers w). \<forall>ex\<in>set (records wr).
      (\<exists>first_segment second_segment k.
         first_segment \<noteq> [] \<and> ex = assemble first_segment second_segment k \<and>
         (\<forall>f s j. ex = assemble f s j \<longrightarrow>
            f = first_segment \<and> s = second_segment \<and> j = k)) \<and>
      3 \<le> sum_list (input_mask ex)"
    unfolding shards_with_content_def by blast
  with r show ?thesis by (simp add: ready_def)
qed

theorem written_examples_have_content_witness:
  "5 \<le> max_seq_length scenario_args \<and>
   map records (writers (the (fst (snd
     (write_examples (\<lambda>n. False) 0 scenario_args (\<lambda>n. 2 ^ 52) scenario_files))))) =
     [[scenario_first, scenario_second]] \<and>
   list_all (\<lambda>wr. list_all
       (\<lambda>ex. (\<exists>first_segment second_segment k.
                first_segment \<noteq> [] \<and> ex = assemble first_segment second_segment k) \<and>
             3 \<le> sum_list (input_mask ex))
       (records wr))
     (writers (the (fst (snd
       (write_examples (\<lambda>n. False) 0 scenario_args (\<lambda>n. 2 ^ 52) scenario_files)))))"
  using written_examples_have_content [OF _ scenario_run]
  unfolding scenario_run by (auto simp: scenario_args_def)

text \<open>
  The claim as stated fails on the corpus of the one line \<open>[SEP]\<close>: the token is
  looked up in the vocabulary that holds the markers, so the first segment is the id 3,
  and the example written is the ids of \<open>[CLS]\<close>, \<open>[SEP]\<close>, \<open>[SEP]\<close> and padding. Its
  ids are markers and padding only, and no token stands before its first id 3.
\<close>

theorem written_example_of_markers_only:
  "5 \<le> max_seq_length \<lparr>vocab_file = [], max_seq_length = 8, num_processes = 1,
      blanks_separate_docs_flag = True, num_out_files = 1\<rparr> \<and>
   map records (writers (the (fst (snd
     (write_examples (\<lambda>n. False) 0
        \<lparr>vocab_file = [], max_seq_length = 8, num_processes = 1,
         blanks_separate_docs_flag = True, num_out_files = 1\<rparr>
        (\<lambda>n. 2 ^ 52) [[str ''[SEP]'']]))))) =
     [[\<lparr>input_ids = [2, 3, 3, 0, 0, 0, 0, 0], input_mask = [1, 1, 1, 0, 0, 0, 0, 0],
        segment_ids = [0, 0, 0, 0, 0, 0, 0, 0]\<rparr>]]"
  by (simp add: worker_defs run_defs upto.simps)

text \<open>
  Claim C8, as the code has it. \<open>finish()\<close> is reached on the normal exit path only:
  when every file has been processed without an error, all owned shard handles are
  closed; when processing raises, the error leaves the worker and every owned shard
  handle is still open.
\<close>

theorem finish_only_on_normal_exit:
  assumes "write_examples fails job_id args g files = (out, Some w, g')"
  shows "(out = Returned () \<longrightarrow> (\<forall>wr\<in>set (writers w). is_closed wr)) \<and>
         ((\<exists>e. out = Raised e) \<longrightarrow> (\<forall>wr\<in>set (writers w). \<not> is_closed wr))"
proof -
  from worker_outcome [OF assms] obtain w0 w1 where
    init: "ExampleWriter_init job_id (vocab_file args) (max_seq_length args)
             (num_processes args) (blanks_separate_docs_flag args) (num_out_files args) =
           Returned w0"
    and c: "carried w0 w1"
    and w: "out = Returned () \<and> w = ExampleWriter_finish w1 \<or> (\<exists>e. out = Raised e) \<and> w = w1"
    by blast
  from ExampleWriter_init_fresh [OF init] have "\<forall>c\<in>set (map is_closed (writers w0)). \<not> c"
    by simp
  with c have "\<forall>c\<in>set (map is_closed (writers w1)). \<not> c" by (simp add: carried_def)
  then have "\<forall>wr\<in>set (writers w1). \<not> is_closed wr" by simp
  with w show ?thesis by (auto simp: ExampleWriter_finish_def)
qed

theorem finish_only_on_normal_exit_witness:
  "fst (write_examples (\<lambda>n. False) 0 scenario_args (\<lambda>n. 2 ^ 52) scenario_files) = Returned () \<and>
   map is_closed (writers (the (fst (snd
     (write_examples (\<lambda>n. False) 0 scenario_args (\<lambda>n. 2 ^ 52) scenario_files))))) = [True]"
  using finish_only_on_normal_exit [OF scenario_run]
  unfolding scenario_run by simp

text \<open>
  The claim as stated fails when the second write of the scenario raises: the worker
  ends with the error, one record in its shard, and the handle of the shard not closed.
\<close>

theorem finish_not_reached_on_error:
  "fst (write_examples (\<lambda>n. n = 1) 0 scenario_args (\<lambda>n. 2 ^ 52) scenario_files) =
     Raised IOError \<and>
   map is_closed (writers (the (fst (snd
     (write_examples (\<lambda>n. n = 1) 0 scenario_args (\<lambda>n. 2 ^ 52) scenario_files))))) = [False]"
  unfolding scenario_failing_run by simp

end
